theory Spec2Isabelle
  imports Main "HOL-Library.List_Lexorder"
begin

section \<open>Go strings\<close>

text \<open>
  A Go string is modelled by the sequence of its Unicode code points, the value that
  \<^verbatim>\<open>[]rune(s)\<close> yields and \<^verbatim>\<open>string(runes)\<close> encodes back. This covers every
  valid UTF-8 string; the message texts and the backend reply both come out of a JSON
  decoder, which produces valid UTF-8 only. \<^verbatim>\<open>len(s)\<close> counts bytes: it is the sum
  of the UTF-8 lengths of the code points.
\<close>

type_synonym rune = nat
type_synonym gostring = "rune list"

definition str :: "string \<Rightarrow> gostring" where
  "str cs = map of_char cs"

definition rune_len :: "rune \<Rightarrow> nat" where
  "rune_len r =
     (if r < 0x80 then 1 else if r < 0x800 then 2 else if r < 0x10000 then 3 else 4)"

definition len :: "gostring \<Rightarrow> nat" where
  "len s = sum_list (map rune_len s)"

text \<open>\<^verbatim>\<open>unicode.IsSpace\<close>: the Latin-1 cases of the switch, then the White_Space table.\<close>

definition IsSpace :: "rune \<Rightarrow> bool" where
  "IsSpace r =
     (if r \<le> 0xFF then r \<in> {0x09, 0x0A, 0x0B, 0x0C, 0x0D, 0x20, 0x85, 0xA0}
      else r = 0x1680 \<or> (0x2000 \<le> r \<and> r \<le> 0x200A) \<or>
           r \<in> {0x2028, 0x2029, 0x202F, 0x205F, 0x3000})"

definition TrimSpace :: "gostring \<Rightarrow> gostring" where
  "TrimSpace s = rev (dropWhile IsSpace (rev (dropWhile IsSpace s)))"

definition HasPrefix :: "gostring \<Rightarrow> gostring \<Rightarrow> bool" where
  "HasPrefix s p = (length p \<le> length s \<and> take (length p) s = p)"

text \<open>
  \<^verbatim>\<open>strings.Fields\<close>: the maximal runs of non-space code points, in order. The first
  argument of the scan is the field being read.
\<close>

fun fields_scan :: "gostring \<Rightarrow> gostring \<Rightarrow> gostring list" where
  "fields_scan cur [] = (if cur = [] then [] else [cur])"
| "fields_scan cur (r # rs) =
     (if IsSpace r then (if cur = [] then fields_scan [] rs else cur # fields_scan [] rs)
      else fields_scan (cur @ [r]) rs)"

definition Fields :: "gostring \<Rightarrow> gostring list" where
  "Fields s = fields_scan [] s"

text \<open>The verb \<^verbatim>\<open>%d\<close> of \<^verbatim>\<open>fmt\<close> on an integer.\<close>

fun digits :: "nat \<Rightarrow> gostring" where
  "digits n = (if n < 10 then [48 + n] else digits (n div 10) @ [48 + n mod 10])"

declare digits.simps [simp del]

definition fmt_d :: "int \<Rightarrow> gostring" where
  "fmt_d i = (if i < 0 then 45 # digits (nat (- i)) else digits (nat i))"

section \<open>Response chunker\<close>

text \<open>
  \<^verbatim>\<open>splitTelegramMessage(s string, max int) []string\<close>. The slice expression
  \<^verbatim>\<open>runes[:max]\<close> panics for a negative \<^verbatim>\<open>max\<close>, and with \<^verbatim>\<open>max = 0\<close> the loop
  never ends on a non-empty text: the result is \<open>None\<close> when the function does not
  return, \<open>Some (Inl p)\<close> when it panics, \<open>Some (Inr pieces)\<close> when it returns.
\<close>

datatype panic = SliceBoundsOutOfRange

partial_function (option) split_loop ::
  "int \<Rightarrow> gostring \<Rightarrow> gostring list \<Rightarrow> (panic + gostring list) option" where
  "split_loop mx runes res =
     (if int (length runes) > mx then
        (if mx < 0 then Some (Inl SliceBoundsOutOfRange)
         else split_loop mx (drop (nat mx) runes) (res @ [take (nat mx) runes]))
      else Some (Inr (if length runes > 0 then res @ [runes] else res)))"

declare split_loop.simps [code]

definition splitTelegramMessage :: "gostring \<Rightarrow> int \<Rightarrow> (panic + gostring list) option" where
  "splitTelegramMessage s mx =
     (if int (len s) \<le> mx then Some (Inr [s]) else split_loop mx s [])"

text \<open>
  The vocabulary of the specification, not of the code: a character that a reader sees
  as one may be several code points, a base followed by marks of the block Combining
  Diacritical Marks (U+0300 to U+036F). A sequence of pieces splits such a character
  when a piece other than the first begins with a combining mark whose base ended the
  piece before.
\<close>

definition combining_mark :: "rune \<Rightarrow> bool" where
  "combining_mark r = (0x300 \<le> r \<and> r \<le> 0x36F)"

fun splits_character :: "gostring list \<Rightarrow> bool" where
  "splits_character (p # q # ps) =
     ((p \<noteq> [] \<and> q \<noteq> [] \<and> combining_mark (hd q)) \<or> splits_character (q # ps))"
| "splits_character _ = False"

section \<open>The user store (package auth)\<close>

text \<open>
  The table \<^verbatim>\<open>users\<close> is the list of its rows; \<^verbatim>\<open>telegram_id\<close> is the primary key.
  A statement sent to the database either fails with a driver error, which the caller
  of the store method supplies as \<open>fault\<close>, or takes effect. \<^verbatim>\<open>time.Now()\<close>, formatted
  as RFC 3339, is the argument \<open>now\<close>.
\<close>

datatype error = ErrNoRows | DriverError gostring

fun errorString :: "error \<Rightarrow> gostring" where
  "errorString ErrNoRows = str ''sql: no rows in result set''"
| "errorString (DriverError m) = m"

record DBUser =
  TelegramID :: int
  CreatedAt :: gostring
  LastActivity :: gostring

record UserStore =
  enabled :: bool
  adminID :: int
  db :: "DBUser list"

text \<open>The receiver of every method is a pointer that may be nil: \<open>None\<close>.\<close>

definition IsEnabled :: "UserStore option \<Rightarrow> bool" where
  "IsEnabled s = (case s of None \<Rightarrow> False | Some st \<Rightarrow> enabled st)"

definition IsAdmin :: "UserStore option \<Rightarrow> int \<Rightarrow> bool" where
  "IsAdmin s uid = (case s of None \<Rightarrow> False | Some st \<Rightarrow> enabled st \<and> uid = adminID st)"

definition has_row :: "DBUser list \<Rightarrow> int \<Rightarrow> bool" where
  "has_row rows uid = (\<exists>u \<in> set rows. TelegramID u = uid)"

text \<open>\<^verbatim>\<open>QueryRow(`SELECT 1 FROM users WHERE telegram_id = ?`, id).Scan(&exists)\<close>\<close>

definition QueryRow_Scan :: "DBUser list \<Rightarrow> gostring option \<Rightarrow> int \<Rightarrow> error option" where
  "QueryRow_Scan rows fault uid =
     (case fault of
        Some m \<Rightarrow> Some (DriverError m)
      | None \<Rightarrow> if has_row rows uid then None else Some ErrNoRows)"

definition IsAuthorized :: "UserStore option \<Rightarrow> gostring option \<Rightarrow> int \<Rightarrow> bool \<times> error option" where
  "IsAuthorized s fault uid =
     (case s of
        None \<Rightarrow> (True, None)
      | Some st \<Rightarrow>
          if \<not> enabled st then (True, None)
          else if uid = adminID st then (True, None)
          else
            (let err = QueryRow_Scan (db st) fault uid in
             if err = Some ErrNoRows then (False, None)
             else if err \<noteq> None then (False, err)
             else (True, None)))"

text \<open>
  \<^verbatim>\<open>INSERT INTO users ... VALUES (?, ?, ?) ON CONFLICT(telegram_id) DO UPDATE SET
  last_activity = excluded.last_activity\<close> with the arguments \<^verbatim>\<open>id, now, now\<close>.
\<close>

definition upsert :: "DBUser list \<Rightarrow> int \<Rightarrow> gostring \<Rightarrow> DBUser list" where
  "upsert rows uid now =
     (if has_row rows uid
      then map (\<lambda>u. if TelegramID u = uid then u\<lparr>LastActivity := now\<rparr> else u) rows
      else rows @ [\<lparr>TelegramID = uid, CreatedAt = now, LastActivity = now\<rparr>])"

definition AddUser ::
  "UserStore option \<Rightarrow> gostring option \<Rightarrow> gostring \<Rightarrow> int \<Rightarrow> UserStore option \<times> error option" where
  "AddUser s fault now uid =
     (case s of
        None \<Rightarrow> (s, None)
      | Some st \<Rightarrow>
          if \<not> enabled st then (s, None)
          else
            (case fault of
               Some m \<Rightarrow> (s, Some (DriverError m))
             | None \<Rightarrow> (Some (st\<lparr>db := upsert (db st) uid now\<rparr>), None)))"

text \<open>\<^verbatim>\<open>UPDATE users SET last_activity = ? WHERE telegram_id = ?\<close>\<close>

definition update_last_activity :: "DBUser list \<Rightarrow> int \<Rightarrow> gostring \<Rightarrow> DBUser list" where
  "update_last_activity rows uid now =
     map (\<lambda>u. if TelegramID u = uid then u\<lparr>LastActivity := now\<rparr> else u) rows"

definition Touch ::
  "UserStore option \<Rightarrow> gostring option \<Rightarrow> gostring \<Rightarrow> int \<Rightarrow> UserStore option \<times> error option" where
  "Touch s fault now uid =
     (case s of
        None \<Rightarrow> (s, None)
      | Some st \<Rightarrow>
          if \<not> enabled st then (s, None)
          else if uid = adminID st then (s, None)
          else
            (case fault of
               Some m \<Rightarrow> (s, Some (DriverError m))
             | None \<Rightarrow> (Some (st\<lparr>db := update_last_activity (db st) uid now\<rparr>), None)))"

text \<open>
  \<^verbatim>\<open>SELECT ... FROM users ORDER BY created_at ASC LIMIT ?\<close>. Rows with equal
  \<^verbatim>\<open>created_at\<close> come in table order here; SQL leaves their order open.
\<close>

definition ListUsers ::
  "UserStore option \<Rightarrow> gostring option \<Rightarrow> int \<Rightarrow> DBUser list \<times> error option" where
  "ListUsers s fault limit =
     (case s of
        None \<Rightarrow> ([], None)
      | Some st \<Rightarrow>
          if \<not> enabled st then ([], None)
          else
            (let limit' = (if limit \<le> 0 then 100 else limit) in
             case fault of
               Some m \<Rightarrow> ([], Some (DriverError m))
             | None \<Rightarrow> (take (nat limit') (sort_key CreatedAt (db st)), None)))"

text \<open>
  The authorization decision as the dispatch loop reads the pair that
  \<^verbatim>\<open>IsAuthorized\<close> returns: an error first, then the flag.
\<close>

datatype decision = Allow | Deny | Error

definition decide :: "UserStore option \<Rightarrow> gostring option \<Rightarrow> int \<Rightarrow> decision" where
  "decide s fault uid =
     (case IsAuthorized s fault uid of
        (allowed, Some err) \<Rightarrow> Error
      | (allowed, None) \<Rightarrow> if allowed then Allow else Deny)"

section \<open>The bot (package bot)\<close>

subsection \<open>What the bot sends and receives\<close>

text \<open>
  The Telegram client is outside the program. A call of \<^verbatim>\<open>b.api.Send\<close> is recorded as
  the value sent; its result is ignored by every caller. Of an update the loop reads the
  message, its chat, its sender and its text.
\<close>

record MessageConfig =
  ChatID :: int
  Text :: gostring
  ParseMode :: gostring
  DisableWebPagePreview :: bool

datatype chattable = SendMessage MessageConfig | SendChatAction int gostring

definition NewMessage :: "int \<Rightarrow> gostring \<Rightarrow> MessageConfig" where
  "NewMessage chatID txt =
     \<lparr>ChatID = chatID, Text = txt, ParseMode = [], DisableWebPagePreview = False\<rparr>"

definition ChatTyping :: gostring where
  "ChatTyping = str ''typing''"

record Message =
  Chat :: int
  From :: "int option"
  MessageText :: gostring

record Update =
  UpdateMessage :: "Message option"

record Bot =
  userStore :: "UserStore option"
  ollamaBaseURL :: gostring
  model :: gostring

text \<open>
  What the outside decides while one update is handled: the clock, and whether the
  query or the write that the handler sends to the database fails. No path through the
  loop body sends more than one query and one write.
\<close>

record world =
  now :: gostring
  query_fault :: "gostring option"
  exec_fault :: "gostring option"

subsection \<open>Message texts\<close>

text \<open>The non-ASCII code points are those of the string literals of the source file.\<close>

definition warn_mark :: gostring where
  "warn_mark = [0xE2, 0x161, 0xA0, 0xEF, 0xB8]"

definition ok_mark :: gostring where
  "ok_mark = [0xE2, 0x153, 0x2026]"

definition auth_error_text :: gostring where
  "auth_error_text = warn_mark @ str '' Internal auth error, please try again later.''"

definition not_allowed_text :: gostring where
  "not_allowed_text =
     [0xF0, 0x178, 0x161, 0xAB] @ str '' You are not allowed to use this bot.'' @ [10] @
     str ''Ask the admin to add your Telegram ID.''"

definition greeting_text :: "gostring \<Rightarrow> gostring" where
  "greeting_text m =
     str ''Hi! Send me any message and I'' @ [39] @ str ''ll forward it to Ollama ('' @ m @
     str '').'' @ [10, 10] @
     str ''Code blocks with '' @ [96, 96, 96] @ str '' will be rendered as code in Telegram.''"

subsection \<open>Handlers\<close>

text \<open>\<^verbatim>\<open>strconv.ParseInt(s, 10, 64)\<close>\<close>

datatype num_error = ErrSyntax | ErrRange

fun parse_uint_loop :: "gostring \<Rightarrow> nat \<Rightarrow> num_error + nat" where
  "parse_uint_loop [] n = Inr n"
| "parse_uint_loop (c # cs) n =
     (if \<not> (48 \<le> c \<and> c \<le> 57) then Inl ErrSyntax
      else if n \<ge> (2 ^ 64 - 1) div 10 + 1 then Inl ErrRange
      else if n * 10 + (c - 48) > 2 ^ 64 - 1 then Inl ErrRange
      else parse_uint_loop cs (n * 10 + (c - 48)))"

definition ParseUint :: "gostring \<Rightarrow> num_error + nat" where
  "ParseUint s = (if s = [] then Inl ErrSyntax else parse_uint_loop s 0)"

definition parseInt64 :: "gostring \<Rightarrow> num_error + int" where
  "parseInt64 s0 =
     (if s0 = [] then Inl ErrSyntax
      else
        (let neg = (hd s0 = 45);
             s = (if hd s0 = 43 \<or> hd s0 = 45 then tl s0 else s0)
         in case ParseUint s of
              Inl e \<Rightarrow> Inl e
            | Inr un \<Rightarrow>
                if \<not> neg \<and> un \<ge> 2 ^ 63 then Inl ErrRange
                else if neg \<and> un > 2 ^ 63 then Inl ErrRange
                else Inr (if neg then - int un else int un)))"

definition handleAddUser :: "world \<Rightarrow> Bot \<Rightarrow> int \<Rightarrow> gostring \<Rightarrow> Bot \<times> chattable list" where
  "handleAddUser w b chatID txt =
     (let parts = Fields txt in
      if length parts < 2
      then (b, [SendMessage (NewMessage chatID (str ''Usage: /adduser <telegram_id>''))])
      else
        (case parseInt64 (parts ! 1) of
           Inl e \<Rightarrow> (b, [SendMessage (NewMessage chatID (str ''Invalid user id (must be integer).''))])
         | Inr toAdd \<Rightarrow>
             (case AddUser (userStore b) (exec_fault w) (now w) toAdd of
                (s', Some err) \<Rightarrow>
                  (b\<lparr>userStore := s'\<rparr>,
                   [SendMessage (NewMessage chatID
                      (warn_mark @ str '' Failed to add user: '' @ errorString err))])
              | (s', None) \<Rightarrow>
                  (b\<lparr>userStore := s'\<rparr>,
                   [SendMessage (NewMessage chatID
                      (ok_mark @ str '' User '' @ fmt_d toAdd @ str '' has been added/updated.''))]))))"

definition user_line :: "DBUser \<Rightarrow> gostring" where
  "user_line urow =
     str ''- ID: '' @ fmt_d (TelegramID urow) @ [10] @
     str ''  created_at: '' @ CreatedAt urow @ [10] @
     str ''  last_activity: '' @ LastActivity urow @ [10]"

definition handleListUsers :: "world \<Rightarrow> Bot \<Rightarrow> int \<Rightarrow> Bot \<times> chattable list" where
  "handleListUsers w b chatID =
     (case ListUsers (userStore b) (query_fault w) 200 of
        (users, Some err) \<Rightarrow>
          (b, [SendMessage (NewMessage chatID
                 (warn_mark @ str '' Failed to list users: '' @ errorString err))])
      | (users, None) \<Rightarrow>
          if length users = 0
          then (b, [SendMessage (NewMessage chatID (str ''No users in DB yet.''))])
          else (b, [SendMessage (NewMessage chatID
                      (str ''Registered users:'' @ [10] @ concat (map user_line users)))]))"

definition handleWhoAmI :: "world \<Rightarrow> Bot \<Rightarrow> int \<Rightarrow> int \<Rightarrow> Bot \<times> chattable list" where
  "handleWhoAmI w b chatID userID =
     (let sb = str ''Your info:'' @ [10] @ str ''- Telegram ID: '' @ fmt_d userID @ [10];
          sb' =
            (if IsEnabled (userStore b)
             then sb @ str ''- Auth: ENABLED'' @ [10] @
               (if IsAdmin (userStore b) userID then str ''- Role: admin'' @ [10]
                else str ''- Role: user'' @ [10]) @
               (case IsAuthorized (userStore b) (query_fault w) userID of
                  (allowed, Some err) \<Rightarrow>
                    str ''- Allowed: ERROR ('' @ errorString err @ str '')'' @ [10]
                | (allowed, None) \<Rightarrow>
                    if allowed then str ''- Allowed: YES'' @ [10]
                    else str ''- Allowed: NO'' @ [10])
             else sb @ str ''- Auth: DISABLED (bot is open for everyone)'' @ [10])
      in (b, [SendMessage (NewMessage chatID sb')]))"

definition handleModelCommand :: "Bot \<Rightarrow> int \<Rightarrow> gostring \<Rightarrow> Bot \<times> chattable list" where
  "handleModelCommand b chatID txt =
     (let parts = Fields txt in
      if length parts \<ge> 2
      then
        (let b' = b\<lparr>model := parts ! 1\<rparr>;
             reply = ok_mark @ str '' Model changed to '' @ [96] @ model b' @ [96]
         in (b', [SendMessage ((NewMessage chatID reply)\<lparr>ParseMode := str ''Markdown''\<rparr>)]))
      else
        (b, [SendMessage ((NewMessage chatID
               (str ''Current model: '' @ [96] @ model b @ [96, 10] @
                str ''Usage: '' @ [96] @ str ''/model llama3.1'' @ [96]))
             \<lparr>ParseMode := str ''Markdown''\<rparr>)]))"

subsection \<open>The body of the dispatch loop\<close>

text \<open>
  One iteration of the \<^verbatim>\<open>for update := range updates\<close> loop of \<^verbatim>\<open>Run\<close>. The outcome
  holds the bot after the iteration, what was sent, the goroutine started (its three
  arguments) if any, and a label of the branch that ended the iteration.
\<close>

datatype handler =
  Skipped | AddUserCommand | ListUsersCommand | WhoAmICommand | AuthFailed | NotAllowed
  | StartCommand | ModelCommand | NoCommand

record task =
  task_chatID :: int
  prompt :: gostring
  modelForCall :: gostring

record outcome =
  bot_after :: Bot
  sent :: "chattable list"
  spawned :: "task option"
  handled_as :: handler

definition finish :: "handler \<Rightarrow> Bot \<times> chattable list \<Rightarrow> outcome" where
  "finish h r = \<lparr>bot_after = fst r, sent = snd r, spawned = None, handled_as = h\<rparr>"

text \<open>
  The block \<^verbatim>\<open>if b.userStore.IsEnabled() { ... }\<close> before the ordinary commands:
  \<open>Inl\<close> is a \<^verbatim>\<open>continue\<close>, \<open>Inr\<close> the bot with which the iteration goes on.
\<close>

definition auth_gate :: "world \<Rightarrow> Bot \<Rightarrow> int \<Rightarrow> int \<Rightarrow> outcome + Bot" where
  "auth_gate w b chatID userID =
     (if IsEnabled (userStore b) then
        (case IsAuthorized (userStore b) (query_fault w) userID of
           (allowed, Some err) \<Rightarrow>
             Inl (finish AuthFailed (b, [SendMessage (NewMessage chatID auth_error_text)]))
         | (allowed, None) \<Rightarrow>
             if \<not> allowed
             then Inl (finish NotAllowed (b, [SendMessage (NewMessage chatID not_allowed_text)]))
             else Inr (b\<lparr>userStore := fst (Touch (userStore b) (exec_fault w) (now w) userID)\<rparr>))
      else Inr b)"

definition loop_body :: "world \<Rightarrow> Bot \<Rightarrow> Update \<Rightarrow> outcome" where
  "loop_body w b update =
     (case UpdateMessage update of
        None \<Rightarrow> finish Skipped (b, [])
      | Some msg \<Rightarrow>
          (case From msg of
             None \<Rightarrow> finish Skipped (b, [])
           | Some userID \<Rightarrow>
               (let chatID = Chat msg; txt = TrimSpace (MessageText msg) in
                if txt = [] then finish Skipped (b, [])
                else if IsEnabled (userStore b) \<and> IsAdmin (userStore b) userID \<and>
                        HasPrefix txt (str ''/adduser'')
                then finish AddUserCommand (handleAddUser w b chatID txt)
                else if IsEnabled (userStore b) \<and> IsAdmin (userStore b) userID \<and>
                        HasPrefix txt (str ''/listusers'')
                then finish ListUsersCommand (handleListUsers w b chatID)
                else if HasPrefix txt (str ''/whoami'')
                then finish WhoAmICommand (handleWhoAmI w b chatID userID)
                else
                  (case auth_gate w b chatID userID of
                     Inl stopped \<Rightarrow> stopped
                   | Inr b1 \<Rightarrow>
                       if HasPrefix txt (str ''/start'')
                       then finish StartCommand
                              (b1, [SendMessage ((NewMessage chatID (greeting_text (model b1)))
                                      \<lparr>ParseMode := str ''Markdown''\<rparr>)])
                       else if HasPrefix txt (str ''/model'')
                       then finish ModelCommand (handleModelCommand b1 chatID txt)
                       else
                         \<lparr>bot_after = b1,
                          sent = [SendChatAction chatID ChatTyping],
                          spawned = Some \<lparr>task_chatID = chatID, prompt = txt,
                                          modelForCall = model b1\<rparr>,
                          handled_as = NoCommand\<rparr>))))"

subsection \<open>The backend call\<close>

record OllamaMessage =
  Role :: gostring
  Content :: gostring

record OllamaChatRequest =
  Model :: gostring
  Messages :: "OllamaMessage list"
  Stream :: bool

record OllamaChatResponse =
  resp_Model :: gostring
  resp_Message :: OllamaMessage
  resp_Done :: bool
  resp_Error :: gostring

text \<open>
  The backend is outside the program. Either it accepts the request and never answers,
  or the transport fails with an error, or it answers with a status code and a body;
  \<^verbatim>\<open>json.NewDecoder(resp.Body).Decode(&oresp)\<close> turns the body into a decode error or
  into a response value.
\<close>

datatype backend =
  Hangs
  | Unreachable gostring
  | Answers nat gostring "gostring + OllamaChatResponse"

text \<open>
  Of \<^verbatim>\<open>net/http\<close>: a \<^verbatim>\<open>Client\<close> has a \<^verbatim>\<open>Timeout\<close>, and a \<^verbatim>\<open>Timeout\<close> of zero means
  no timeout. \<^verbatim>\<open>http.Post\<close> is \<^verbatim>\<open>DefaultClient.Post\<close>, and \<^verbatim>\<open>DefaultClient\<close> is the
  zero \<^verbatim>\<open>Client\<close>. A call that does not return is \<open>None\<close>.
\<close>

record Client =
  Timeout :: nat

definition DefaultClient :: Client where
  "DefaultClient = \<lparr>Timeout = 0\<rparr>"

definition Client_Post ::
  "Client \<Rightarrow> gostring \<Rightarrow> OllamaChatRequest \<Rightarrow> backend \<Rightarrow>
   (gostring + nat \<times> gostring \<times> (gostring + OllamaChatResponse)) option" where
  "Client_Post c url body be =
     (case be of
        Hangs \<Rightarrow>
          if Timeout c = 0 then None
          else Some (Inl (str ''context deadline exceeded (Client.Timeout exceeded while awaiting headers)''))
      | Unreachable e \<Rightarrow> Some (Inl e)
      | Answers status raw decoded \<Rightarrow> Some (Inr (status, raw, decoded)))"

definition http_Post ::
  "gostring \<Rightarrow> OllamaChatRequest \<Rightarrow> backend \<Rightarrow>
   (gostring + nat \<times> gostring \<times> (gostring + OllamaChatResponse)) option" where
  "http_Post url body be = Client_Post DefaultClient url body be"

definition reqBody :: "gostring \<Rightarrow> gostring \<Rightarrow> OllamaChatRequest" where
  "reqBody mdl prmpt =
     \<lparr>Model = mdl,
      Messages =
        [\<lparr>Role = str ''user'',
          Content = prmpt @ [10, 10] @
            str ''Please answer in Markdown. Use fenced code blocks ('' @ [96, 96, 96] @
            str ''lang ... '' @ [96, 96, 96] @ str '').''\<rparr>],
      Stream = False\<rparr>"

text \<open>
  \<^verbatim>\<open>callOllama\<close> returns a pair \<^verbatim>\<open>(string, error)\<close>; the error is the text of its
  message. Marshalling this request cannot fail.
\<close>

definition callOllama ::
  "Bot \<Rightarrow> gostring \<Rightarrow> gostring \<Rightarrow> backend \<Rightarrow> (gostring \<times> gostring option) option" where
  "callOllama b mdl prmpt be =
     (case http_Post (ollamaBaseURL b @ str ''/api/chat'') (reqBody mdl prmpt) be of
        None \<Rightarrow> None
      | Some (Inl err) \<Rightarrow> Some ([], Some (str ''http post: '' @ err))
      | Some (Inr (status, raw, decoded)) \<Rightarrow>
          if status \<noteq> 200
          then Some ([], Some (str ''ollama HTTP '' @ fmt_d (int status) @ str '': '' @ raw))
          else
            (case decoded of
               Inl err \<Rightarrow> Some ([], Some (str ''decode response: '' @ err))
             | Inr oresp \<Rightarrow>
                 if resp_Error oresp \<noteq> []
                 then Some ([], Some (str ''ollama error: '' @ resp_Error oresp))
                 else Some (TrimSpace (Content (resp_Message oresp)), None)))"

text \<open>
  The goroutine that \<^verbatim>\<open>Run\<close> starts for a query, without the typing actions of
  \<^verbatim>\<open>sendTypingUntilDone\<close>, whose number depends on the ticker and the scheduler: what it
  sends once \<^verbatim>\<open>callOllama\<close> has returned.
\<close>

definition query_goroutine :: "Bot \<Rightarrow> task \<Rightarrow> backend \<Rightarrow> (panic + chattable list) option" where
  "query_goroutine b t be =
     (case callOllama b (modelForCall t) (prompt t) be of
        None \<Rightarrow> None
      | Some (reply, Some err) \<Rightarrow>
          Some (Inr [SendMessage (NewMessage (task_chatID t)
                       (warn_mark @ str '' Error from backend: '' @ err))])
      | Some (reply, None) \<Rightarrow>
          (let msg = (NewMessage (task_chatID t) reply)
                       \<lparr>ParseMode := str ''Markdown'', DisableWebPagePreview := True\<rparr>
           in case splitTelegramMessage reply 4000 of
                None \<Rightarrow> None
              | Some (Inl p) \<Rightarrow> Some (Inl p)
              | Some (Inr chunks) \<Rightarrow>
                  Some (Inr (map (\<lambda>chunk. SendMessage (msg\<lparr>Text := chunk\<rparr>)) chunks))))"

subsection \<open>The loop and its goroutines, interleaved\<close>

text \<open>
  The loop handles the updates one after the other; the goroutines it has started run
  beside it. An event is either the next update reaching the loop, or a started
  goroutine reaching its call of \<^verbatim>\<open>callOllama\<close>, where the request is built from the
  goroutine's own arguments; the scheduler orders the events. \<open>posted\<close> records the
  requests with the number of the goroutine that built each.
\<close>

record system =
  the_bot :: Bot
  goroutines :: "task list"
  posted :: "(nat \<times> OllamaChatRequest) list"

datatype event = Arrives world Update | Calls nat

fun step :: "system \<Rightarrow> event \<Rightarrow> system" where
  "step s (Arrives w u) =
     (let oc = loop_body w (the_bot s) u in
      s\<lparr>the_bot := bot_after oc,
        goroutines := goroutines s @ (case spawned oc of None \<Rightarrow> [] | Some t \<Rightarrow> [t])\<rparr>)"
| "step s (Calls i) =
     (if i < length (goroutines s)
      then s\<lparr>posted := posted s @
             [(i, reqBody (modelForCall (goroutines s ! i)) (prompt (goroutines s ! i)))]\<rparr>
      else s)"

definition run :: "system \<Rightarrow> event list \<Rightarrow> system" where
  "run s es = foldl step s es"

definition startup :: "Bot \<Rightarrow> system" where
  "startup b = \<lparr>the_bot = b, goroutines = [], posted = []\<rparr>"

text \<open>
  For the statements about the active model: no update of the events \<open>es\<close>, handled in
  order from the system \<open>s\<close>, is answered by the \<^verbatim>\<open>/model\<close> handler.
\<close>

fun no_model_command :: "system \<Rightarrow> event list \<Rightarrow> bool" where
  "no_model_command s [] = True"
| "no_model_command s (e # es) =
     ((case e of
         Arrives w u \<Rightarrow> handled_as (loop_body w (the_bot s) u) \<noteq> ModelCommand
       | Calls i \<Rightarrow> True) \<and>
      no_model_command (step s e) es)"

text \<open>
  Every request recorded so far was built by a goroutine that exists, from the model
  name among that goroutine's arguments.
\<close>

definition posted_by_goroutines :: "system \<Rightarrow> bool" where
  "posted_by_goroutines s =
     (\<forall>(i, req) \<in> set (posted s).
        i < length (goroutines s) \<and> Model req = modelForCall (goroutines s ! i))"

subsection \<open>Example values\<close>

text \<open>
  A store with authorization enabled, administrator 1 and the one user 7; a bot on it;
  a bot with authorization disabled; a world where nothing fails and one where the
  query of the store fails; an update that carries a text message.
\<close>

definition store1 :: UserStore where
  "store1 =
     \<lparr>enabled = True, adminID = 1,
      db = [\<lparr>TelegramID = 7, CreatedAt = str ''2025-01-01T00:00:00Z'',
             LastActivity = str ''2025-01-02T00:00:00Z''\<rparr>]\<rparr>"

definition bot1 :: Bot where
  "bot1 = \<lparr>userStore = Some store1, ollamaBaseURL = str ''http://ollama:11434'',
           model = str ''llama3.1''\<rparr>"

definition bot0 :: Bot where
  "bot0 = \<lparr>userStore = Some \<lparr>enabled = False, adminID = 0, db = []\<rparr>,
           ollamaBaseURL = str ''http://ollama:11434'', model = str ''llama3.1''\<rparr>"

definition world0 :: world where
  "world0 = \<lparr>now = str ''2025-03-01T12:00:00Z'', query_fault = None, exec_fault = None\<rparr>"

definition world_locked :: world where
  "world_locked = world0\<lparr>query_fault := Some (str ''database is locked'')\<rparr>"

definition text_update :: "int \<Rightarrow> int \<Rightarrow> gostring \<Rightarrow> Update" where
  "text_update chatID userID txt =
     \<lparr>UpdateMessage = Some \<lparr>Chat = chatID, From = Some userID, MessageText = txt\<rparr>\<rparr>"

section \<open>Response chunker: properties\<close>

lemma length_le_len: "length s \<le> len s"
  by (induction s) (auto simp: len_def rune_len_def)

lemma split_loop_short:
  "int (length runes) \<le> mx \<Longrightarrow>
   split_loop mx runes res = Some (Inr (if runes = [] then res else res @ [runes]))"
  by (subst split_loop.simps) auto

lemma split_loop_pos:
  "0 < mx \<Longrightarrow>
   \<exists>ps. split_loop mx runes res = Some (Inr (res @ ps)) \<and> concat ps = runes \<and>
        (\<forall>p \<in> set ps. p \<noteq> [] \<and> int (length p) \<le> mx)"
proof (induction "length runes" arbitrary: runes res rule: less_induct)
  case less
  show ?case
  proof (cases "int (length runes) > mx")
    case False
    then have "split_loop mx runes res = Some (Inr (if runes = [] then res else res @ [runes]))"
      by (simp add: split_loop_short)
    then show ?thesis using False
      by (cases "runes = []") (auto intro: exI [of _ "[]"] exI [of _ "[runes]"])
  next
    case True
    let ?h = "take (nat mx) runes" and ?t = "drop (nat mx) runes"
    from True less.prems have shorter: "length ?t < length runes" by simp
    from less.hyps [OF shorter less.prems, of "res @ [?h]"]
    obtain ps where ps: "split_loop mx ?t (res @ [?h]) = Some (Inr ((res @ [?h]) @ ps))"
      "concat ps = ?t" "\<forall>p \<in> set ps. p \<noteq> [] \<and> int (length p) \<le> mx"
      by blast
    from True less.prems have unfold: "split_loop mx runes res = split_loop mx ?t (res @ [?h])"
      by (subst split_loop.simps) simp
    from True less.prems have h: "?h \<noteq> []" "int (length ?h) \<le> mx" by auto
    show ?thesis
    proof (intro exI [of _ "?h # ps"] conjI)
      show "split_loop mx runes res = Some (Inr (res @ ?h # ps))" using unfold ps(1) by simp
      show "concat (?h # ps) = runes" using ps(2) by simp
      show "\<forall>p \<in> set (?h # ps). p \<noteq> [] \<and> int (length p) \<le> mx" using ps(3) h by simp
    qed
  qed
qed

text \<open>
  Claim C8. A text of at most \<open>mx\<close> code points comes back as the one piece that is
  the text itself, also when its byte length exceeds \<open>mx\<close> and the loop is entered.
\<close>

theorem chunk_short_single:
  "int (length s) \<le> mx \<Longrightarrow> splitTelegramMessage s mx = Some (Inr [s])"
proof (cases "int (len s) \<le> mx")
  case True
  then show ?thesis by (simp add: splitTelegramMessage_def)
next
  case False
  assume le: "int (length s) \<le> mx"
  from False have "s \<noteq> []" using le by (auto simp: len_def)
  with False le show ?thesis by (simp add: splitTelegramMessage_def split_loop_short)
qed

theorem chunk_short_single_witness:
  "int (length [0x416, 0x438, 0x442 :: nat]) \<le> 3 \<and> int (len [0x416, 0x438, 0x442]) > 3 \<and>
   splitTelegramMessage [0x416, 0x438, 0x442] 3 = Some (Inr [[0x416, 0x438, 0x442]])"
  using chunk_short_single [of "[0x416, 0x438, 0x442]" 3]
  by (simp add: len_def rune_len_def)

text \<open>
  Claim C3, as the code has it. For a positive limit the chunker returns; the pieces
  concatenated in order are the text; each piece is a sequence of at most \<open>mx\<close> whole
  code points, so that no code point is divided between two pieces; and no piece is
  empty unless the text is.
\<close>

theorem chunk_pieces:
  "0 < mx \<Longrightarrow>
   \<exists>pieces. splitTelegramMessage s mx = Some (Inr pieces) \<and>
     concat pieces = s \<and>
     (\<forall>p \<in> set pieces. int (length p) \<le> mx) \<and>
     (s \<noteq> [] \<longrightarrow> (\<forall>p \<in> set pieces. p \<noteq> []))"
proof (cases "int (len s) \<le> mx")
  case True
  moreover have "int (length s) \<le> int (len s)" using length_le_len [of s] by simp
  ultimately show ?thesis by (simp add: splitTelegramMessage_def)
next
  case False
  assume "0 < mx"
  from split_loop_pos [OF this, of s "[]"] False show ?thesis
    by (auto simp: splitTelegramMessage_def)
qed

theorem chunk_pieces_witness:
  "(0::int) < 2 \<and>
   (\<exists>pieces. splitTelegramMessage [104, 233, 0x1F600] 2 = Some (Inr pieces) \<and>
      concat pieces = [104, 233, 0x1F600] \<and>
      (\<forall>p \<in> set pieces. int (length p) \<le> 2) \<and>
      (\<forall>p \<in> set pieces. p \<noteq> []))"
  using chunk_pieces [of 2 "[104, 233, 0x1F600]"] by simp

text \<open>
  Claim C3, as stated, fails: the letter e followed by the combining acute accent
  U+0301 is one character of two code points, and with limit 1 the chunker puts the
  two code points into two pieces.
\<close>

theorem chunk_splits_character:
  "splitTelegramMessage [0x65, 0x301] 1 = Some (Inr [[0x65], [0x301]]) \<and>
   splits_character [[0x65], [0x301]]"
  by (simp add: splitTelegramMessage_def len_def rune_len_def split_loop.simps
      combining_mark_def)

section \<open>The user store: properties\<close>

text \<open>
  Claim C2. With authorization disabled the decision is \<open>Allow\<close> for every user. With
  it enabled, the administrator is allowed whatever the table holds and whether or not
  the database answers; any other user is allowed exactly when the table has a row for
  them and denied when it has none; and a query that fails gives \<open>Error\<close>, not
  \<open>Deny\<close>.
\<close>

theorem decide_cases:
  "(\<not> IsEnabled s \<longrightarrow> decide s fault uid = Allow) \<and>
   (s = Some st \<and> enabled st \<longrightarrow>
      (uid = adminID st \<longrightarrow> decide s fault uid = Allow) \<and>
      (uid \<noteq> adminID st \<and> fault = None \<longrightarrow>
         decide s fault uid = (if has_row (db st) uid then Allow else Deny)) \<and>
      (uid \<noteq> adminID st \<and> fault = Some e \<longrightarrow> decide s fault uid = Error))"
  by (auto simp: decide_def IsAuthorized_def IsEnabled_def QueryRow_Scan_def
      split: option.splits)

theorem decide_cases_witness:
  "decide (Some (store1\<lparr>enabled := False\<rparr>)) (Some (str ''database is locked'')) 8 = Allow \<and>
   decide (Some store1) (Some (str ''database is locked'')) 1 = Allow \<and>
   decide (Some store1) None 7 = Allow \<and>
   decide (Some store1) None 8 = Deny \<and>
   decide (Some store1) (Some (str ''database is locked'')) 8 = Error"
  using
    decide_cases [of "Some (store1\<lparr>enabled := False\<rparr>)" "Some (str ''database is locked'')" 8]
    decide_cases [of "Some store1" "Some (str ''database is locked'')" 1 store1]
    decide_cases [of "Some store1" None 7 store1]
    decide_cases [of "Some store1" None 8 store1]
    decide_cases [of "Some store1" "Some (str ''database is locked'')" 8 store1
      "str ''database is locked''"]
  by (simp add: store1_def IsEnabled_def has_row_def)

lemma has_row_update_last_activity:
  "has_row (update_last_activity rows uid tm) other = has_row rows other"
  by (induction rows) (auto simp: has_row_def update_last_activity_def)

lemma upsert_present:
  "has_row rows uid \<Longrightarrow> upsert rows uid tm = update_last_activity rows uid tm"
  by (simp add: upsert_def update_last_activity_def)

lemma upsert_absent:
  "\<not> has_row rows uid \<Longrightarrow>
   upsert rows uid tm = rows @ [\<lparr>TelegramID = uid, CreatedAt = tm, LastActivity = tm\<rparr>]"
  by (simp add: upsert_def)

lemma has_row_upsert:
  "has_row (upsert rows uid tm) other = (other = uid \<or> has_row rows other)"
proof (cases "has_row rows uid")
  case True
  then show ?thesis
    by (auto simp: upsert_present has_row_update_last_activity)
next
  case False
  then show ?thesis
    by (auto simp: upsert_absent has_row_def)
qed

lemma update_last_activity_nth:
  "i < length rows \<Longrightarrow>
   TelegramID (update_last_activity rows uid tm ! i) = TelegramID (rows ! i) \<and>
   CreatedAt (update_last_activity rows uid tm ! i) = CreatedAt (rows ! i) \<and>
   (if TelegramID (rows ! i) = uid
    then LastActivity (update_last_activity rows uid tm ! i) = tm
    else update_last_activity rows uid tm ! i = rows ! i)"
  by (simp add: update_last_activity_def)

text \<open>
  Claim C10. On an enabled store whose statement takes effect, \<^verbatim>\<open>AddUser\<close> of a user
  that has a row keeps the number of rows, every \<^verbatim>\<open>telegram_id\<close> and every
  \<^verbatim>\<open>created_at\<close>, sets \<^verbatim>\<open>last_activity\<close> of that user's row and leaves every other row
  as it was; of a user without a row it appends the row \<open>(uid, tm, tm)\<close>. Afterwards the
  user has a row, and every other user has one exactly when they had one before.
\<close>

theorem AddUser_frame:
  "s = Some st \<and> enabled st \<longrightarrow>
     (\<exists>st'. AddUser s None tm uid = (Some st', None) \<and>
        enabled st' = enabled st \<and> adminID st' = adminID st \<and>
        (has_row (db st) uid \<longrightarrow>
           length (db st') = length (db st) \<and>
           (\<forall>i < length (db st).
              TelegramID (db st' ! i) = TelegramID (db st ! i) \<and>
              CreatedAt (db st' ! i) = CreatedAt (db st ! i) \<and>
              (if TelegramID (db st ! i) = uid then LastActivity (db st' ! i) = tm
               else db st' ! i = db st ! i))) \<and>
        (\<not> has_row (db st) uid \<longrightarrow>
           db st' = db st @ [\<lparr>TelegramID = uid, CreatedAt = tm, LastActivity = tm\<rparr>]) \<and>
        has_row (db st') uid \<and>
        (\<forall>other. other \<noteq> uid \<longrightarrow> has_row (db st') other = has_row (db st) other))"
proof (intro impI, elim conjE)
  assume s: "s = Some st" and en: "enabled st"
  let ?st' = "st\<lparr>db := upsert (db st) uid tm\<rparr>"
  have run: "AddUser s None tm uid = (Some ?st', None)"
    using s en by (simp add: AddUser_def)
  have present: "has_row (db st) uid \<Longrightarrow> db ?st' = update_last_activity (db st) uid tm"
    by (simp add: upsert_present)
  show "\<exists>st'. AddUser s None tm uid = (Some st', None) \<and>
        enabled st' = enabled st \<and> adminID st' = adminID st \<and>
        (has_row (db st) uid \<longrightarrow>
           length (db st') = length (db st) \<and>
           (\<forall>i < length (db st).
              TelegramID (db st' ! i) = TelegramID (db st ! i) \<and>
              CreatedAt (db st' ! i) = CreatedAt (db st ! i) \<and>
              (if TelegramID (db st ! i) = uid then LastActivity (db st' ! i) = tm
               else db st' ! i = db st ! i))) \<and>
        (\<not> has_row (db st) uid \<longrightarrow>
           db st' = db st @ [\<lparr>TelegramID = uid, CreatedAt = tm, LastActivity = tm\<rparr>]) \<and>
        has_row (db st') uid \<and>
        (\<forall>other. other \<noteq> uid \<longrightarrow> has_row (db st') other = has_row (db st) other)"
  proof (intro exI [of _ ?st'] conjI impI allI)
    show "AddUser s None tm uid = (Some ?st', None)" by (rule run)
    show "enabled ?st' = enabled st" by simp
    show "adminID ?st' = adminID st" by simp
    show "length (db ?st') = length (db st)" if "has_row (db st) uid"
      using present [OF that] by (simp add: update_last_activity_def)
    show "TelegramID (db ?st' ! i) = TelegramID (db st ! i)"
      if "has_row (db st) uid" "i < length (db st)" for i
      using present [OF that(1)] update_last_activity_nth [OF that(2)] by simp
    show "CreatedAt (db ?st' ! i) = CreatedAt (db st ! i)"
      if "has_row (db st) uid" "i < length (db st)" for i
      using present [OF that(1)] update_last_activity_nth [OF that(2)] by simp
    show "if TelegramID (db st ! i) = uid then LastActivity (db ?st' ! i) = tm
          else db ?st' ! i = db st ! i"
      if "has_row (db st) uid" "i < length (db st)" for i
      using present [OF that(1)] update_last_activity_nth [OF that(2), of uid tm] by simp
    show "db ?st' = db st @ [\<lparr>TelegramID = uid, CreatedAt = tm, LastActivity = tm\<rparr>]"
      if "\<not> has_row (db st) uid"
      using that by (simp add: upsert_absent)
    show "has_row (db ?st') uid" by (simp add: has_row_upsert)
    show "has_row (db ?st') other = has_row (db st) other" if "other \<noteq> uid" for other
      using that by (simp add: has_row_upsert)
  qed
qed

theorem AddUser_frame_witness:
  "has_row (db store1) 7 \<and> \<not> has_row (db store1) 9 \<and>
   (\<exists>st'. AddUser (Some store1) None (str ''2025-03-01T12:00:00Z'') 7 = (Some st', None) \<and>
      length (db st') = 1 \<and>
      CreatedAt (db st' ! 0) = str ''2025-01-01T00:00:00Z'' \<and>
      LastActivity (db st' ! 0) = str ''2025-03-01T12:00:00Z'') \<and>
   (\<exists>st'. AddUser (Some store1) None (str ''2025-03-01T12:00:00Z'') 9 = (Some st', None) \<and>
      db st' = db store1 @
        [\<lparr>TelegramID = 9, CreatedAt = str ''2025-03-01T12:00:00Z'',
          LastActivity = str ''2025-03-01T12:00:00Z''\<rparr>] \<and>
      has_row (db st') 7)"
proof -
  have row: "has_row (db store1) 7" "\<not> has_row (db store1) 9" "enabled store1"
    "length (db store1) = 1" "TelegramID (db store1 ! 0) = 7"
    "CreatedAt (db store1 ! 0) = str ''2025-01-01T00:00:00Z''"
    by (simp_all add: store1_def has_row_def)
  from AddUser_frame [of "Some store1" store1 "str ''2025-03-01T12:00:00Z''" 7] row
  have present: "\<exists>st'. AddUser (Some store1) None (str ''2025-03-01T12:00:00Z'') 7 = (Some st', None) \<and>
      length (db st') = 1 \<and>
      CreatedAt (db st' ! 0) = str ''2025-01-01T00:00:00Z'' \<and>
      LastActivity (db st' ! 0) = str ''2025-03-01T12:00:00Z''"
    by auto
  from AddUser_frame [of "Some store1" store1 "str ''2025-03-01T12:00:00Z''" 9] row
  have absent: "\<exists>st'. AddUser (Some store1) None (str ''2025-03-01T12:00:00Z'') 9 = (Some st', None) \<and>
      db st' = db store1 @
        [\<lparr>TelegramID = 9, CreatedAt = str ''2025-03-01T12:00:00Z'',
          LastActivity = str ''2025-03-01T12:00:00Z''\<rparr>] \<and>
      has_row (db st') 7"
    by auto
  from row present absent show ?thesis by blast
qed

section \<open>The dispatch loop: properties\<close>

lemma IsAdmin_IsEnabled: "IsAdmin s uid \<Longrightarrow> IsEnabled s"
  by (auto simp: IsAdmin_def IsEnabled_def split: option.splits)

lemma decide_disabled: "\<not> IsEnabled s \<Longrightarrow> decide s fault uid = Allow"
  by (auto simp: decide_def IsAuthorized_def IsEnabled_def split: option.splits)

lemma Touch_disabled: "\<not> IsEnabled s \<Longrightarrow> Touch s fault tm uid = (s, None)"
  by (auto simp: Touch_def IsEnabled_def split: option.splits)

lemma auth_gate_decide:
  "auth_gate w b chatID uid =
     (case decide (userStore b) (query_fault w) uid of
        Error \<Rightarrow> Inl (finish AuthFailed (b, [SendMessage (NewMessage chatID auth_error_text)]))
      | Deny \<Rightarrow> Inl (finish NotAllowed (b, [SendMessage (NewMessage chatID not_allowed_text)]))
      | Allow \<Rightarrow>
          Inr (b\<lparr>userStore := fst (Touch (userStore b) (exec_fault w) (now w) uid)\<rparr>))"
proof (cases "IsEnabled (userStore b)")
  case True
  then show ?thesis
    by (simp add: auth_gate_def decide_def split: prod.splits option.splits)
next
  case False
  then show ?thesis
    by (simp add: auth_gate_def decide_disabled Touch_disabled)
qed

lemma fields_scan_nonspace:
  "\<forall>r \<in> set a. \<not> IsSpace r \<Longrightarrow> fields_scan cur (a @ rs) = fields_scan (cur @ a) rs"
  by (induction a arbitrary: cur) auto

lemma fields_scan_word:
  assumes "cur \<noteq> []"
  shows "\<exists>rest. fields_scan cur rs = (cur @ takeWhile (\<lambda>r. \<not> IsSpace r) rs) # rest"
  using assms
proof (induction rs arbitrary: cur)
  case Nil
  then show ?case by simp
next
  case (Cons a rs)
  show ?case
  proof (cases "IsSpace a")
    case True
    with Cons.prems show ?thesis by simp
  next
    case False
    from Cons.IH [of "cur @ [a]"] False show ?thesis by simp
  qed
qed

lemma hd_Fields:
  assumes "tx \<noteq> []" "\<not> IsSpace (hd tx)"
  shows "Fields tx \<noteq> [] \<and> hd (Fields tx) = takeWhile (\<lambda>r. \<not> IsSpace r) tx"
proof -
  from assms obtain r rs where t: "tx = r # rs" "\<not> IsSpace r" by (cases tx) auto
  then have "Fields tx = fields_scan [r] rs" by (simp add: Fields_def)
  moreover obtain rest where "fields_scan [r] rs = ([r] @ takeWhile (\<lambda>r. \<not> IsSpace r) rs) # rest"
    using fields_scan_word [of "[r]" rs] by auto
  ultimately show ?thesis using t by simp
qed

lemma dropWhile_rev_keeps_hd:
  assumes "\<not> P y"
  shows "rev (dropWhile P (rev (y # ys))) \<noteq> [] \<and> hd (rev (dropWhile P (rev (y # ys)))) = y"
proof -
  have "dropWhile P (rev ys @ [y]) = dropWhile P (rev ys) @ [y]"
    using assms by (rule dropWhile_append3)
  then show ?thesis by simp
qed

lemma TrimSpace_hd: "TrimSpace s \<noteq> [] \<Longrightarrow> \<not> IsSpace (hd (TrimSpace s))"
proof -
  assume ne: "TrimSpace s \<noteq> []"
  have "TrimSpace s = []" if "dropWhile IsSpace s = []"
    unfolding TrimSpace_def that by simp
  with ne have "dropWhile IsSpace s \<noteq> []" by blast
  then obtain y ys where d: "dropWhile IsSpace s = y # ys" by (cases "dropWhile IsSpace s") auto
  then have "\<not> IsSpace y" using hd_dropWhile [of IsSpace s] by auto
  with dropWhile_rev_keeps_hd [of IsSpace y ys] d show ?thesis by (simp add: TrimSpace_def)
qed

lemma HasPrefix_takeWhile: "HasPrefix tx (takeWhile P tx)"
proof -
  have "take (length (takeWhile P tx)) (takeWhile P tx @ dropWhile P tx) = takeWhile P tx"
    by (simp del: takeWhile_dropWhile_id)
  then show ?thesis by (simp add: HasPrefix_def length_takeWhile_le)
qed

lemma first_token_is_prefix:
  "TrimSpace s \<noteq> [] \<Longrightarrow>
   Fields (TrimSpace s) \<noteq> [] \<and> HasPrefix (TrimSpace s) (hd (Fields (TrimSpace s)))"
  using hd_Fields [OF _ TrimSpace_hd, of s] by (simp add: HasPrefix_takeWhile)

lemma loop_body_message:
  assumes "UpdateMessage u = Some msg" "From msg = Some uid"
    "tx = TrimSpace (MessageText msg)" "tx \<noteq> []"
  shows "loop_body w b u =
      (if IsAdmin (userStore b) uid \<and> HasPrefix tx (str ''/adduser'')
       then finish AddUserCommand (handleAddUser w b (Chat msg) tx)
       else if IsAdmin (userStore b) uid \<and> HasPrefix tx (str ''/listusers'')
       then finish ListUsersCommand (handleListUsers w b (Chat msg))
       else if HasPrefix tx (str ''/whoami'')
       then finish WhoAmICommand (handleWhoAmI w b (Chat msg) uid)
       else
         (case decide (userStore b) (query_fault w) uid of
            Error \<Rightarrow>
              finish AuthFailed (b, [SendMessage (NewMessage (Chat msg) auth_error_text)])
          | Deny \<Rightarrow>
              finish NotAllowed (b, [SendMessage (NewMessage (Chat msg) not_allowed_text)])
          | Allow \<Rightarrow>
              (let b1 = b\<lparr>userStore :=
                           fst (Touch (userStore b) (exec_fault w) (now w) uid)\<rparr> in
               if HasPrefix tx (str ''/start'')
               then finish StartCommand
                      (b1, [SendMessage ((NewMessage (Chat msg) (greeting_text (model b1)))
                              \<lparr>ParseMode := str ''Markdown''\<rparr>)])
               else if HasPrefix tx (str ''/model'')
               then finish ModelCommand (handleModelCommand b1 (Chat msg) tx)
               else
                 \<lparr>bot_after = b1,
                  sent = [SendChatAction (Chat msg) ChatTyping],
                  spawned = Some \<lparr>task_chatID = Chat msg, prompt = tx,
                                  modelForCall = model b1\<rparr>,
                  handled_as = NoCommand\<rparr>)))"
proof (cases "IsAdmin (userStore b) uid")
  case True
  then have "IsEnabled (userStore b)" by (rule IsAdmin_IsEnabled)
  with True show ?thesis
    using assms(1,2,4) unfolding assms(3)
    by (cases "decide (userStore b) (query_fault w) uid")
      (simp_all add: loop_body_def Let_def auth_gate_decide)
next
  case False
  then show ?thesis
    using assms(1,2,4) unfolding assms(3)
    by (cases "decide (userStore b) (query_fault w) uid")
      (simp_all add: loop_body_def Let_def auth_gate_decide)
qed

text \<open>
  Claim C1, as the code has it. The loop recognises a command by
  \<^verbatim>\<open>strings.HasPrefix\<close> on the whole trimmed text, in the order of the source: the two
  administrator commands, \<^verbatim>\<open>/whoami\<close>, the authorization gate, \<^verbatim>\<open>/start\<close>,
  \<^verbatim>\<open>/model\<close>. A goroutine for a query is started exactly when none of them applies.
  The trimmed text has its first whitespace-delimited token as a prefix, so a text whose
  first token is a command is recognised, and so is any text that merely begins with
  the letters of the command.
\<close>

theorem command_dispatch_by_prefix:
  "UpdateMessage u = Some msg \<and> From msg = Some uid \<and> tx = TrimSpace (MessageText msg) \<and>
   tx \<noteq> [] \<longrightarrow>
     handled_as (loop_body w b u) =
       (if IsAdmin (userStore b) uid \<and> HasPrefix tx (str ''/adduser'') then AddUserCommand
        else if IsAdmin (userStore b) uid \<and> HasPrefix tx (str ''/listusers'')
          then ListUsersCommand
        else if HasPrefix tx (str ''/whoami'') then WhoAmICommand
        else if decide (userStore b) (query_fault w) uid = Error then AuthFailed
        else if decide (userStore b) (query_fault w) uid = Deny then NotAllowed
        else if HasPrefix tx (str ''/start'') then StartCommand
        else if HasPrefix tx (str ''/model'') then ModelCommand
        else NoCommand) \<and>
     (spawned (loop_body w b u) \<noteq> None \<longleftrightarrow> handled_as (loop_body w b u) = NoCommand) \<and>
     Fields tx \<noteq> [] \<and> HasPrefix tx (hd (Fields tx))"
proof (intro impI, elim conjE)
  assume u: "UpdateMessage u = Some msg" "From msg = Some uid"
    and t: "tx = TrimSpace (MessageText msg)" "tx \<noteq> []"
  note body = loop_body_message [OF u t, of w b]
  have tag: "handled_as (loop_body w b u) =
       (if IsAdmin (userStore b) uid \<and> HasPrefix tx (str ''/adduser'') then AddUserCommand
        else if IsAdmin (userStore b) uid \<and> HasPrefix tx (str ''/listusers'')
          then ListUsersCommand
        else if HasPrefix tx (str ''/whoami'') then WhoAmICommand
        else if decide (userStore b) (query_fault w) uid = Error then AuthFailed
        else if decide (userStore b) (query_fault w) uid = Deny then NotAllowed
        else if HasPrefix tx (str ''/start'') then StartCommand
        else if HasPrefix tx (str ''/model'') then ModelCommand
        else NoCommand)"
    unfolding body
    by (cases "decide (userStore b) (query_fault w) uid") (simp_all add: finish_def Let_def)
  have spawn: "spawned (loop_body w b u) \<noteq> None \<longleftrightarrow> handled_as (loop_body w b u) = NoCommand"
    unfolding body
    by (cases "decide (userStore b) (query_fault w) uid") (simp_all add: finish_def Let_def)
  have tok: "Fields tx \<noteq> [] \<and> HasPrefix tx (hd (Fields tx))"
    using first_token_is_prefix [of "MessageText msg"] t by simp
  from tag spawn tok
  show "handled_as (loop_body w b u) =
       (if IsAdmin (userStore b) uid \<and> HasPrefix tx (str ''/adduser'') then AddUserCommand
        else if IsAdmin (userStore b) uid \<and> HasPrefix tx (str ''/listusers'')
          then ListUsersCommand
        else if HasPrefix tx (str ''/whoami'') then WhoAmICommand
        else if decide (userStore b) (query_fault w) uid = Error then AuthFailed
        else if decide (userStore b) (query_fault w) uid = Deny then NotAllowed
        else if HasPrefix tx (str ''/start'') then StartCommand
        else if HasPrefix tx (str ''/model'') then ModelCommand
        else NoCommand) \<and>
     (spawned (loop_body w b u) \<noteq> None \<longleftrightarrow> handled_as (loop_body w b u) = NoCommand) \<and>
     Fields tx \<noteq> [] \<and> HasPrefix tx (hd (Fields tx))"
    by blast
qed


theorem command_dispatch_by_prefix_witness:
  "handled_as (loop_body world0 bot1 (text_update 10 7 (str ''/modelx foo''))) = ModelCommand \<and>
   spawned (loop_body world0 bot1 (text_update 10 7 (str ''/modelx foo''))) = None"
  using command_dispatch_by_prefix
    [of "text_update 10 7 (str ''/modelx foo'')"
        "\<lparr>Chat = 10, From = Some 7, MessageText = str ''/modelx foo''\<rparr>"
        7 "str ''/modelx foo''" world0 bot1]
  by (auto simp: text_update_def bot1_def store1_def world0_def str_def TrimSpace_def
      IsSpace_def HasPrefix_def IsAdmin_def decide_def IsAuthorized_def QueryRow_Scan_def
      has_row_def Fields_def)


text \<open>
  Claim C1, as stated, fails: the first token of \<^verbatim>\<open>/startfoo\<close> is none of the five
  commands, and the message is answered by the \<^verbatim>\<open>/start\<close> branch; no query is started.
\<close>

theorem startfoo_handled_as_start:
  "hd (Fields (TrimSpace (str ''/startfoo''))) = str ''/startfoo'' \<and>
   str ''/startfoo'' \<notin>
     {str ''/start'', str ''/whoami'', str ''/model'', str ''/adduser'', str ''/listusers''} \<and>
   handled_as (loop_body world0 bot0 (text_update 10 8 (str ''/startfoo''))) = StartCommand \<and>
   spawned (loop_body world0 bot0 (text_update 10 8 (str ''/startfoo''))) = None"
  by (simp add: loop_body_def text_update_def world0_def bot0_def str_def TrimSpace_def
      IsSpace_def HasPrefix_def IsEnabled_def IsAdmin_def auth_gate_def finish_def Fields_def)

lemma loop_body_skipped:
  "UpdateMessage u = None \<or>
   (\<exists>msg. UpdateMessage u = Some msg \<and> (From msg = None \<or> TrimSpace (MessageText msg) = [])) \<Longrightarrow>
   loop_body w b u = finish Skipped (b, [])"
  by (auto simp: loop_body_def split: option.splits)

lemma loop_body_cases:
  obtains (skipped) "loop_body w b u = finish Skipped (b, [])"
  | (message) msg uid where "UpdateMessage u = Some msg" "From msg = Some uid"
      "TrimSpace (MessageText msg) \<noteq> []"
proof (cases "UpdateMessage u")
  case None
  then show ?thesis using skipped loop_body_skipped by blast
next
  case (Some msg)
  show ?thesis
  proof (cases "From msg")
    case None
    with Some show ?thesis using skipped loop_body_skipped by blast
  next
    case (Some uid)
    show ?thesis
    proof (cases "TrimSpace (MessageText msg) = []")
      case True
      with \<open>UpdateMessage u = Some msg\<close> show ?thesis using skipped loop_body_skipped by blast
    next
      case False
      with \<open>UpdateMessage u = Some msg\<close> Some show ?thesis using message by blast
    qed
  qed
qed

lemma handleAddUser_model: "model (fst (handleAddUser w b chatID tx)) = model b"
  by (simp add: handleAddUser_def Let_def split: sum.splits prod.splits option.splits)

lemma handleListUsers_bot: "fst (handleListUsers w b chatID) = b"
  by (simp add: handleListUsers_def split: prod.splits option.splits)

lemma handleWhoAmI_bot: "fst (handleWhoAmI w b chatID uid) = b"
  by (simp add: handleWhoAmI_def Let_def)

lemma handleModelCommand_model:
  "model (fst (handleModelCommand b chatID tx)) =
     (if 2 \<le> length (Fields tx) then Fields tx ! 1 else model b)"
  by (simp add: handleModelCommand_def Let_def)

lemma handleModelCommand_store:
  "userStore (fst (handleModelCommand b chatID tx)) = userStore b"
  by (simp add: handleModelCommand_def Let_def)

lemma spawned_snapshot:
  assumes "spawned (loop_body w b u) = Some t"
  shows "modelForCall t = model b"
proof (cases rule: loop_body_cases [of w b u])
  case skipped
  with assms show ?thesis by (simp add: finish_def)
next
  case (message msg uid)
  note body = loop_body_message [OF message(1,2) refl message(3), of w b]
  from assms show ?thesis
    unfolding body
    by (cases "decide (userStore b) (query_fault w) uid")
      (auto simp: finish_def Let_def split: if_splits)
qed

lemma model_kept:
  assumes "handled_as (loop_body w b u) \<noteq> ModelCommand"
  shows "model (bot_after (loop_body w b u)) = model b"
proof (cases rule: loop_body_cases [of w b u])
  case skipped
  then show ?thesis by (simp add: finish_def)
next
  case (message msg uid)
  note body = loop_body_message [OF message(1,2) refl message(3), of w b]
  from assms show ?thesis
    unfolding body
    by (cases "decide (userStore b) (query_fault w) uid")
      (auto simp: finish_def Let_def handleAddUser_model handleListUsers_bot handleWhoAmI_bot
        split: if_splits)
qed

lemma model_set:
  assumes "handled_as (loop_body w b u) = ModelCommand" "UpdateMessage u = Some msg"
  shows "model (bot_after (loop_body w b u)) =
     (if 2 \<le> length (Fields (TrimSpace (MessageText msg)))
      then Fields (TrimSpace (MessageText msg)) ! 1 else model b)"
proof (cases rule: loop_body_cases [of w b u])
  case skipped
  with assms show ?thesis by (simp add: finish_def)
next
  case (message msg' uid)
  with assms(2) have msg: "msg' = msg" by simp
  note body = loop_body_message [OF message(1,2) refl message(3), of w b]
  from assms(1) show ?thesis
    unfolding body msg
    by (cases "decide (userStore b) (query_fault w) uid")
      (auto simp: finish_def Let_def handleModelCommand_model split: if_splits)
qed


lemma decide_admin: "IsAdmin s uid \<Longrightarrow> decide s fault uid = Allow"
  by (auto simp: IsAdmin_def decide_def IsAuthorized_def split: option.splits)

lemma store_changed_allowed:
  assumes "userStore (bot_after (loop_body w b u)) \<noteq> userStore b"
  shows "\<exists>msg uid. UpdateMessage u = Some msg \<and> From msg = Some uid \<and>
           decide (userStore b) (query_fault w) uid = Allow"
proof (cases rule: loop_body_cases [of w b u])
  case skipped
  with assms show ?thesis by (simp add: finish_def)
next
  case (message msg uid)
  note body = loop_body_message [OF message(1,2) refl message(3), of w b]
  have "decide (userStore b) (query_fault w) uid = Allow"
  proof (cases "IsAdmin (userStore b) uid")
    case True
    then show ?thesis by (rule decide_admin)
  next
    case False
    with assms show ?thesis
      unfolding body
      by (cases "decide (userStore b) (query_fault w) uid")
        (auto simp: finish_def handleWhoAmI_bot split: if_splits)
  qed
  with message show ?thesis by blast
qed

lemma texts_differ: "auth_error_text \<noteq> not_allowed_text"
  by (simp add: auth_error_text_def not_allowed_text_def warn_mark_def)

text \<open>
  Claim C7, as the code has it. When authorization is enabled, the sender is not the
  administrator, the text is not empty and does not begin with \<^verbatim>\<open>/whoami\<close>, and the
  query of the store fails, the iteration sends the one message
  \<open>auth_error_text\<close>, leaves the bot with its store as it was and starts nothing. That
  text differs from the text sent to a user who is not allowed. And whenever an
  iteration changes the store, the update has a sender whose decision is \<open>Allow\<close>.
\<close>

theorem auth_failure_stops_message:
  "(UpdateMessage u = Some msg \<and> From msg = Some uid \<and> tx = TrimSpace (MessageText msg) \<and>
    tx \<noteq> [] \<and> \<not> HasPrefix tx (str ''/whoami'') \<and>
    userStore b = Some st \<and> enabled st \<and> uid \<noteq> adminID st \<and> query_fault w = Some e \<longrightarrow>
      loop_body w b u =
        \<lparr>bot_after = b, sent = [SendMessage (NewMessage (Chat msg) auth_error_text)],
         spawned = None, handled_as = AuthFailed\<rparr>) \<and>
   auth_error_text \<noteq> not_allowed_text \<and>
   (userStore (bot_after (loop_body w b u)) \<noteq> userStore b \<longrightarrow>
      (\<exists>msg uid. UpdateMessage u = Some msg \<and> From msg = Some uid \<and>
         decide (userStore b) (query_fault w) uid = Allow))"
proof (intro conjI impI)
  assume h: "UpdateMessage u = Some msg \<and> From msg = Some uid \<and>
    tx = TrimSpace (MessageText msg) \<and> tx \<noteq> [] \<and> \<not> HasPrefix tx (str ''/whoami'') \<and>
    userStore b = Some st \<and> enabled st \<and> uid \<noteq> adminID st \<and> query_fault w = Some e"
  then have m: "UpdateMessage u = Some msg" "From msg = Some uid"
    "tx = TrimSpace (MessageText msg)" "tx \<noteq> []"
    and nw: "\<not> HasPrefix tx (str ''/whoami'')"
    and st: "userStore b = Some st" "enabled st" "uid \<noteq> adminID st" "query_fault w = Some e"
    by blast+
  from st have na: "\<not> IsAdmin (userStore b) uid" by (simp add: IsAdmin_def)
  from st have err: "decide (userStore b) (query_fault w) uid = Error"
    by (simp add: decide_def IsAuthorized_def QueryRow_Scan_def)
  note body = loop_body_message [OF m, of w b]
  from nw na err show "loop_body w b u =
        \<lparr>bot_after = b, sent = [SendMessage (NewMessage (Chat msg) auth_error_text)],
         spawned = None, handled_as = AuthFailed\<rparr>"
    unfolding body by (simp add: finish_def)
next
  show "auth_error_text \<noteq> not_allowed_text" by (rule texts_differ)
next
  assume "userStore (bot_after (loop_body w b u)) \<noteq> userStore b"
  then show "\<exists>msg uid. UpdateMessage u = Some msg \<and> From msg = Some uid \<and>
         decide (userStore b) (query_fault w) uid = Allow"
    by (rule store_changed_allowed)
qed

theorem auth_failure_stops_message_witness:
  "loop_body world_locked bot1 (text_update 10 8 (str ''hello'')) =
     \<lparr>bot_after = bot1, sent = [SendMessage (NewMessage 10 auth_error_text)],
      spawned = None, handled_as = AuthFailed\<rparr> \<and>
   decide (userStore bot1) (query_fault world0) 7 = Allow"
proof -
  have changed: "userStore (bot_after (loop_body world0 bot1 (text_update 10 7 (str ''hello''))))
      \<noteq> userStore bot1"
    by (simp add: loop_body_def text_update_def world0_def bot1_def store1_def str_def
        TrimSpace_def IsSpace_def HasPrefix_def IsEnabled_def IsAdmin_def auth_gate_def
        IsAuthorized_def QueryRow_Scan_def has_row_def Touch_def update_last_activity_def)
  have allow: "decide (userStore bot1) (query_fault world0) 7 = Allow"
    using auth_failure_stops_message
      [of "text_update 10 7 (str ''hello'')" _ _ _ bot1 _ world0] changed
    by (auto simp: text_update_def)
  have stop: "loop_body world_locked bot1 (text_update 10 8 (str ''hello'')) =
     \<lparr>bot_after = bot1, sent = [SendMessage (NewMessage 10 auth_error_text)],
      spawned = None, handled_as = AuthFailed\<rparr>"
    using auth_failure_stops_message
      [of "text_update 10 8 (str ''hello'')"
          "\<lparr>Chat = 10, From = Some 8, MessageText = str ''hello''\<rparr>" 8 "str ''hello''"
          bot1 store1 world_locked "str ''database is locked''"]
    by (simp add: text_update_def bot1_def store1_def world_locked_def world0_def str_def
        TrimSpace_def IsSpace_def HasPrefix_def)
  from stop allow show ?thesis by simp
qed


text \<open>
  Claim C7, as stated, fails for \<^verbatim>\<open>/whoami\<close>, which is answered before the
  authorization gate: the query of the store fails for the user 8, who is not the
  administrator, and the answer is the report of \<^verbatim>\<open>handleWhoAmI\<close>, with the error in
  it, not the try-again-later text.
\<close>

theorem whoami_answers_auth_failure:
  "\<not> IsAdmin (userStore bot1) 8 \<and>
   IsAuthorized (userStore bot1) (query_fault world_locked) 8 =
     (False, Some (DriverError (str ''database is locked''))) \<and>
   sent (loop_body world_locked bot1 (text_update 10 8 (str ''/whoami''))) =
     [SendMessage (NewMessage 10
        (str ''Your info:'' @ [10] @ str ''- Telegram ID: 8'' @ [10] @
         str ''- Auth: ENABLED'' @ [10] @ str ''- Role: user'' @ [10] @
         str ''- Allowed: ERROR (database is locked)'' @ [10]))] \<and>
   sent (loop_body world_locked bot1 (text_update 10 8 (str ''/whoami''))) \<noteq>
     [SendMessage (NewMessage 10 auth_error_text)]"
  by (simp add: loop_body_def text_update_def world_locked_def world0_def bot1_def store1_def
      str_def TrimSpace_def IsSpace_def HasPrefix_def IsEnabled_def IsAdmin_def finish_def
      handleWhoAmI_def IsAuthorized_def QueryRow_Scan_def fmt_d_def digits.simps
      NewMessage_def auth_error_text_def warn_mark_def Let_def)

lemma fields_command_argument:
  assumes "cmd \<noteq> []" "\<forall>r \<in> set cmd. \<not> IsSpace r" "arg \<noteq> []" "\<forall>r \<in> set arg. \<not> IsSpace r"
  shows "Fields (cmd @ [32] @ arg) = [cmd, arg]"
proof -
  have sp: "IsSpace 32" by (simp add: IsSpace_def)
  have "Fields (cmd @ [32] @ arg) = fields_scan cmd (32 # arg)"
    using fields_scan_nonspace [OF assms(2), of "[]" "32 # arg"] by (simp add: Fields_def)
  also have "\<dots> = cmd # fields_scan [] arg" using sp assms(1) by simp
  also have "fields_scan [] arg = fields_scan arg []"
    using fields_scan_nonspace [OF assms(4), of "[]" "[]"] by simp
  finally show ?thesis using assms(3) by simp
qed

lemma fields_command_alone:
  assumes "cmd \<noteq> []" "\<forall>r \<in> set cmd. \<not> IsSpace r"
  shows "Fields cmd = [cmd]"
  using fields_scan_nonspace [OF assms(2), of "[]" "[]"] assms(1) by (simp add: Fields_def)

lemma model_command_nonspace: "\<forall>r \<in> set (str ''/model''). \<not> IsSpace r"
  by (simp add: str_def IsSpace_def)

lemma step_model_kept:
  "(case e of Arrives w u \<Rightarrow> handled_as (loop_body w (the_bot s) u) \<noteq> ModelCommand
    | Calls i \<Rightarrow> True) \<Longrightarrow>
   model (the_bot (step s e)) = model (the_bot s)"
  by (cases e) (simp_all add: Let_def model_kept)

lemma run_model_kept:
  "no_model_command s es \<Longrightarrow> model (the_bot (run s es)) = model (the_bot s)"
proof (induction es arbitrary: s)
  case Nil
  then show ?case by (simp add: run_def)
next
  case (Cons e es)
  from Cons.prems have here: "model (the_bot (step s e)) = model (the_bot s)"
    and rest: "no_model_command (step s e) es"
    by (simp_all add: step_model_kept)
  from Cons.IH [OF rest] here show ?case by (simp add: run_def)
qed

text \<open>
  Claim C9. When the \<^verbatim>\<open>/model\<close> handler answers a message, the active model is
  unchanged if the text has fewer than two fields and becomes the second field
  otherwise; \<^verbatim>\<open>/model\<close> alone has one field, and \<^verbatim>\<open>/model\<close>, a space and an argument
  without white space have the two fields \<^verbatim>\<open>/model\<close> and the argument. From any
  system, as long as no update is answered by the \<^verbatim>\<open>/model\<close> handler, whatever else
  happens, a query that is then dispatched gets the system's active model as its
  \<open>modelForCall\<close>.
\<close>

theorem model_command_effect:
  "(handled_as (loop_body w b u) = ModelCommand \<and> UpdateMessage u = Some msg \<and>
    tx = TrimSpace (MessageText msg) \<longrightarrow>
      (length (Fields tx) < 2 \<longrightarrow> model (bot_after (loop_body w b u)) = model b) \<and>
      (2 \<le> length (Fields tx) \<longrightarrow> model (bot_after (loop_body w b u)) = Fields tx ! 1)) \<and>
   Fields (str ''/model'') = [str ''/model''] \<and>
   (arg \<noteq> [] \<and> (\<forall>r \<in> set arg. \<not> IsSpace r) \<longrightarrow>
      Fields (str ''/model'' @ [32] @ arg) = [str ''/model'', arg]) \<and>
   (no_model_command s es \<and> spawned (loop_body w' (the_bot (run s es)) u') = Some t \<longrightarrow>
      modelForCall t = model (the_bot s))"
proof (intro conjI impI)
  assume h: "handled_as (loop_body w b u) = ModelCommand \<and> UpdateMessage u = Some msg \<and>
    tx = TrimSpace (MessageText msg)"
  then have m: "model (bot_after (loop_body w b u)) =
      (if 2 \<le> length (Fields tx) then Fields tx ! 1 else model b)"
    using model_set [of w b u msg] by simp
  show "model (bot_after (loop_body w b u)) = model b" if "length (Fields tx) < 2"
    using m that by simp
  show "model (bot_after (loop_body w b u)) = Fields tx ! 1" if "2 \<le> length (Fields tx)"
    using m that by simp
next
  have ne: "str ''/model'' \<noteq> []" by (simp add: str_def)
  show "Fields (str ''/model'') = [str ''/model'']"
    using fields_command_alone [OF ne model_command_nonspace] .
  show "Fields (str ''/model'' @ [32] @ arg) = [str ''/model'', arg]"
    if "arg \<noteq> [] \<and> (\<forall>r \<in> set arg. \<not> IsSpace r)"
    using fields_command_argument [OF ne model_command_nonspace, of arg] that by blast
next
  assume "no_model_command s es \<and> spawned (loop_body w' (the_bot (run s es)) u') = Some t"
  then show "modelForCall t = model (the_bot s)"
    using run_model_kept [of s es] spawned_snapshot [of w' "the_bot (run s es)" u' t] by simp
qed


theorem model_command_effect_witness:
  "model (bot_after (loop_body world0 bot0 (text_update 10 8 (str ''/model foo'')))) = str ''foo'' \<and>
   model (bot_after (loop_body world0 bot0 (text_update 10 8 (str ''/model'')))) = str ''llama3.1'' \<and>
   (\<exists>t. spawned (loop_body world0
            (the_bot (run (startup bot0) [Arrives world0 (text_update 10 8 (str ''/start''))]))
            (text_update 10 8 (str ''hello''))) = Some t \<and>
        modelForCall t = str ''llama3.1'')"
proof -
  have h1: "handled_as (loop_body world0 bot0 (text_update 10 8 (str ''/model foo''))) = ModelCommand"
    and h2: "handled_as (loop_body world0 bot0 (text_update 10 8 (str ''/model''))) = ModelCommand"
    and h3: "handled_as (loop_body world0 bot0 (text_update 10 8 (str ''/start''))) \<noteq> ModelCommand"
    by (simp_all add: loop_body_def text_update_def world0_def bot0_def str_def TrimSpace_def
        IsSpace_def HasPrefix_def IsEnabled_def IsAdmin_def auth_gate_def finish_def Let_def)
  have f1: "Fields (TrimSpace (str ''/model foo'')) = [str ''/model'', str ''foo'']"
    and f2: "Fields (TrimSpace (str ''/model'')) = [str ''/model'']"
    by (simp_all add: str_def TrimSpace_def IsSpace_def Fields_def)
  have set: "model (bot_after (loop_body world0 bot0 (text_update 10 8 (str ''/model foo'')))) = str ''foo''"
    using model_command_effect
      [of world0 bot0 "text_update 10 8 (str ''/model foo'')"
          "\<lparr>Chat = 10, From = Some 8, MessageText = str ''/model foo''\<rparr>"
          "TrimSpace (str ''/model foo'')"] h1 f1
    by (simp add: text_update_def)
  have kept: "model (bot_after (loop_body world0 bot0 (text_update 10 8 (str ''/model'')))) = str ''llama3.1''"
    using model_command_effect
      [of world0 bot0 "text_update 10 8 (str ''/model'')"
          "\<lparr>Chat = 10, From = Some 8, MessageText = str ''/model''\<rparr>"
          "TrimSpace (str ''/model'')"] h2 f2
    by (simp add: text_update_def bot0_def)
  let ?s = "startup bot0" and ?es = "[Arrives world0 (text_update 10 8 (str ''/start''))]"
  have quiet: "no_model_command ?s ?es" using h3 by (simp add: startup_def)
  obtain t where t: "spawned (loop_body world0 (the_bot (run ?s ?es))
      (text_update 10 8 (str ''hello''))) = Some t"
    by (simp add: run_def startup_def loop_body_def text_update_def world0_def bot0_def str_def
        TrimSpace_def IsSpace_def HasPrefix_def IsEnabled_def IsAdmin_def auth_gate_def finish_def Let_def)
  from model_command_effect [of _ _ _ _ _ _ ?s ?es world0 "text_update 10 8 (str ''hello'')" t]
    quiet t
  have "modelForCall t = model (the_bot ?s)" by blast
  then have "modelForCall t = str ''llama3.1''" by (simp add: startup_def bot0_def)
  with set kept t show ?thesis by blast
qed

lemma step_goroutines: "\<exists>more. goroutines (step s e) = goroutines s @ more"
  by (cases e) (simp_all add: Let_def)

lemma run_goroutines: "\<exists>more. goroutines (run s es) = goroutines s @ more"
proof (induction es arbitrary: s)
  case Nil
  then show ?case by (simp add: run_def)
next
  case (Cons e es)
  obtain m1 where m1: "goroutines (step s e) = goroutines s @ m1"
    using step_goroutines by blast
  obtain m2 where "goroutines (run (step s e) es) = goroutines (step s e) @ m2"
    using Cons.IH by blast
  with m1 show ?case by (simp add: run_def)
qed

lemma posted_step:
  assumes "posted_by_goroutines s"
  shows "posted_by_goroutines (step s e)"
proof (cases e)
  case (Arrives w u)
  then show ?thesis
    using assms
    by (auto simp: posted_by_goroutines_def Let_def nth_append split: option.splits)
next
  case (Calls i)
  then show ?thesis
    using assms by (auto simp: posted_by_goroutines_def reqBody_def)
qed

lemma posted_run: "posted_by_goroutines s \<Longrightarrow> posted_by_goroutines (run s es)"
  by (induction es arbitrary: s) (simp_all add: run_def posted_step)

lemma posted_startup: "posted_by_goroutines (startup b)"
  by (simp add: posted_by_goroutines_def startup_def)

lemma step_posted: "\<exists>more. posted (step s e) = posted s @ more"
  by (cases e) (simp_all add: Let_def)

lemma run_posted: "set (posted s) \<subseteq> set (posted (run s es))"
proof (induction es arbitrary: s)
  case Nil
  then show ?case by (simp add: run_def)
next
  case (Cons e es)
  obtain more where "posted (step s e) = posted s @ more" using step_posted by blast
  then have "set (posted s) \<subseteq> set (posted (step s e))" by simp
  also have "\<dots> \<subseteq> set (posted (run (step s e) es))" by (rule Cons.IH)
  finally show ?case by (simp add: run_def)
qed

lemma call_is_posted:
  "Calls i \<in> set es \<Longrightarrow> i < length (goroutines s) \<Longrightarrow>
   (i, reqBody (modelForCall (goroutines s ! i)) (prompt (goroutines s ! i)))
     \<in> set (posted (run s es))"
proof (induction es arbitrary: s)
  case Nil
  then show ?case by simp
next
  case (Cons e es)
  obtain more where more: "goroutines (step s e) = goroutines s @ more"
    using step_goroutines by blast
  with Cons.prems(2) have same: "i < length (goroutines (step s e))"
    "goroutines (step s e) ! i = goroutines s ! i"
    by (simp_all add: nth_append)
  show ?case
  proof (cases "e = Calls i")
    case True
    with Cons.prems(2)
    have "(i, reqBody (modelForCall (goroutines s ! i)) (prompt (goroutines s ! i)))
        \<in> set (posted (step s e))"
      by simp
    then show ?thesis using run_posted [of "step s e" es] by (auto simp: run_def)
  next
    case False
    with Cons.prems(1) have "Calls i \<in> set es" by simp
    from Cons.IH [OF this same(1)] same(2) show ?thesis by (simp add: run_def)
  qed
qed

text \<open>
  Claim C4. Start the bot, let any events \<open>before\<close> happen, let an update arrive that is
  dispatched as a query, and let any events \<open>after\<close> follow, \<^verbatim>\<open>/model\<close> commands among
  them. Every request that the goroutine of this query posts names the model that was
  active when the update arrived; and when the goroutine reaches its call among the
  later events, that request is posted.
\<close>

theorem query_uses_model_at_dispatch:
  "s = run (startup b0) before \<and> spawned (loop_body w (the_bot s) u) = Some t \<longrightarrow>
     (\<forall>(i, req) \<in> set (posted (run (startup b0) (before @ Arrives w u # after))).
        i = length (goroutines s) \<longrightarrow> Model req = model (the_bot s)) \<and>
     (Calls (length (goroutines s)) \<in> set after \<longrightarrow>
        (length (goroutines s), reqBody (model (the_bot s)) (prompt t))
          \<in> set (posted (run (startup b0) (before @ Arrives w u # after))))"
proof (intro impI, elim conjE)
  assume s: "s = run (startup b0) before"
    and sp: "spawned (loop_body w (the_bot s) u) = Some t"
  let ?s1 = "step s (Arrives w u)"
  let ?final = "run (startup b0) (before @ Arrives w u # after)"
  have final: "?final = run ?s1 after" by (simp add: run_def s)
  have g1: "goroutines ?s1 = goroutines s @ [t]" using sp by (simp add: Let_def)
  obtain more where more: "goroutines ?final = goroutines s @ [t] @ more"
    using run_goroutines [of ?s1 after] g1 final by auto
  then have nth: "goroutines ?final ! length (goroutines s) = t" by simp
  have snap: "modelForCall t = model (the_bot s)" using sp by (rule spawned_snapshot)
  have inv: "posted_by_goroutines ?final"
    unfolding final s by (intro posted_run posted_step posted_startup)
  have first: "\<forall>(i, req) \<in> set (posted ?final).
        i = length (goroutines s) \<longrightarrow> Model req = model (the_bot s)"
    using inv nth snap by (auto simp: posted_by_goroutines_def)
  have second: "(length (goroutines s), reqBody (model (the_bot s)) (prompt t)) \<in> set (posted ?final)"
    if "Calls (length (goroutines s)) \<in> set after"
    using call_is_posted [OF that, of ?s1] g1 snap final by simp
  from first second
  show "(\<forall>(i, req) \<in> set (posted (run (startup b0) (before @ Arrives w u # after))).
        i = length (goroutines s) \<longrightarrow> Model req = model (the_bot s)) \<and>
     (Calls (length (goroutines s)) \<in> set after \<longrightarrow>
        (length (goroutines s), reqBody (model (the_bot s)) (prompt t))
          \<in> set (posted (run (startup b0) (before @ Arrives w u # after))))"
    by blast
qed

theorem query_uses_model_at_dispatch_witness:
  "(0, reqBody (str ''llama3.1'') (str ''hello''))
     \<in> set (posted (run (startup bot0)
          [Arrives world0 (text_update 10 8 (str ''hello'')),
           Arrives world0 (text_update 10 8 (str ''/model foo'')),
           Calls 0])) \<and>
   model (bot_after (loop_body world0 bot0 (text_update 10 8 (str ''/model foo'')))) \<noteq>
     str ''llama3.1''"
proof -
  let ?t = "\<lparr>task_chatID = 10, prompt = str ''hello'', modelForCall = str ''llama3.1''\<rparr>"
  have sp: "spawned (loop_body world0 (the_bot (startup bot0)) (text_update 10 8 (str ''hello'')))
      = Some ?t"
    by (simp add: startup_def loop_body_def text_update_def world0_def bot0_def str_def
        TrimSpace_def IsSpace_def HasPrefix_def IsEnabled_def IsAdmin_def auth_gate_def finish_def Let_def)
  have posted: "(0, reqBody (str ''llama3.1'') (str ''hello''))
     \<in> set (posted (run (startup bot0)
          [Arrives world0 (text_update 10 8 (str ''hello'')),
           Arrives world0 (text_update 10 8 (str ''/model foo'')),
           Calls 0]))"
    using query_uses_model_at_dispatch
      [of "startup bot0" bot0 "[]" world0 "text_update 10 8 (str ''hello'')" ?t
          "[Arrives world0 (text_update 10 8 (str ''/model foo'')), Calls 0]"] sp
    by (simp add: run_def startup_def bot0_def)
  have switched: "model (bot_after (loop_body world0 bot0 (text_update 10 8 (str ''/model foo''))))
      \<noteq> str ''llama3.1''"
    by (simp add: loop_body_def text_update_def world0_def bot0_def str_def TrimSpace_def
        IsSpace_def HasPrefix_def IsEnabled_def IsAdmin_def auth_gate_def finish_def Let_def
        handleModelCommand_def Fields_def)
  from posted switched show ?thesis by simp
qed

section \<open>The backend call: properties\<close>

text \<open>
  Claim C5 fails on the code. \<^verbatim>\<open>callOllama\<close> posts through \<^verbatim>\<open>http.Post\<close>, that is
  through the default client, which has no timeout: when the backend accepts the
  request and never answers, the call does not return, whatever the bot and the
  arguments are.
\<close>

theorem callOllama_never_returns: "callOllama b mdl prmpt Hangs = None"
  by (simp add: callOllama_def http_Post_def Client_Post_def DefaultClient_def)

end
